theory Spec2Isabelle
  imports Complex_Main
begin

section \<open>Data model\<close>

text \<open>
  The rows of the Prisma schema that the payment and cart handlers read or write.
  A table is the list of its rows, and the user table is the list of the user
  identifiers. The identifier of an order or of an item, the shipping address and
  the time stamps \<open>createdAt\<close> and \<open>updatedAt\<close> are read by none of the handlers
  below and are left out; \<open>updatedAt\<close>, which the database rewrites at each update
  of an order, is therefore no part of the state of an order here.
\<close>

datatype order_status = paymentInitiated | paymentSucceeded | shipped | delivered

record cart_item =
  productId :: string
  productQuantity :: int

record order_item =
  item_productId :: string
  item_productQuantity :: int

record order =
  userId :: "string option"
  items :: "order_item list"
  totalPrice :: real
  stripePaymentIntentId :: string
  orderStatus :: order_status

record cart =
  cart_id :: string
  cart_userId :: string
  cart_items :: "cart_item list"

record database =
  orders :: "order list"
  users :: "string list"
  carts :: "cart list"

section \<open>The ORM calls\<close>

datatype error =
    RecordNotFound string
  | UniqueConstraintFailed string
  | ValueOutOfRange string
  | StripeError string
  | RangeError

text \<open>
  An update addressed by a unique key rewrites the row that has the key and
  returns it; \<open>None\<close> when no row has it.
\<close>

fun update_first :: "('a \<Rightarrow> bool) \<Rightarrow> ('a \<Rightarrow> 'a) \<Rightarrow> 'a list \<Rightarrow> ('a \<times> 'a list) option" where
  "update_first P f [] = None"
| "update_first P f (x # xs) =
     (if P x then Some (f x, f x # xs)
      else (case update_first P f xs of
              None \<Rightarrow> None
            | Some (y, ys) \<Rightarrow> Some (y, x # ys)))"

text \<open>
  \<open>prisma.order.update({where: {stripePaymentIntentId}, data: {orderStatus: {set}},
  include: {items: true}})\<close>: the client rejects with a record-not-found error when
  no order has the identifier, and resolves with the updated order otherwise.
\<close>

definition prisma_order_update ::
  "string \<Rightarrow> order_status \<Rightarrow> order list \<Rightarrow> error + (order \<times> order list)" where
  "prisma_order_update pid status os =
     (case update_first (\<lambda>ord. stripePaymentIntentId ord = pid)
             (\<lambda>ord. ord\<lparr>orderStatus := status\<rparr>) os of
        None \<Rightarrow> Inl (RecordNotFound ''Order'')
      | Some r \<Rightarrow> Inr r)"

text \<open>
  \<open>prisma.user.update({where: {id}, data: {cart: {update: {data: {items: {deleteMany:
  {productId: {in: pids}}}}}}}})\<close>: rejects when the user row is absent, and when the
  user has no cart to update; otherwise every item of the cart whose product is
  listed is deleted, however many there are (none included).
\<close>

definition prisma_user_update_cart_deleteMany ::
  "string \<Rightarrow> string list \<Rightarrow> database \<Rightarrow> error + database" where
  "prisma_user_update_cart_deleteMany uid pids db =
     (if uid \<notin> set (users db) then Inl (RecordNotFound ''User'')
      else (case update_first (\<lambda>c. cart_userId c = uid)
                   (\<lambda>c. c\<lparr>cart_items := filter (\<lambda>i. productId i \<notin> set pids) (cart_items c)\<rparr>)
                   (carts db) of
              None \<Rightarrow> Inl (RecordNotFound ''Cart'')
            | Some (c, cs) \<Rightarrow> Inr (db\<lparr>carts := cs\<rparr>)))"

section \<open>The webhook handler\<close>

record request =
  headers :: "(string \<times> string) list"
  body :: string

record event =
  ev_type :: string
  payment_intent_id :: string

datatype response_body =
    Send string
  | Json_received
  | Json_error string
  | Json_message string
  | Json_clientSecret string

datatype outcome = Response nat response_body | Next error

text \<open>One constructor for each call of the console in the handlers.\<close>

datatype log_line =
    Log_error_message string
  | Log_order_not_found string
  | Log_unhandled_event_type string
  | Log_payment_intent_id string
  | Log_error error

record result =
  final :: database
  console :: "log_line list"
  outcome :: outcome

text \<open>
  \<open>!order\<close> on the value the update resolved with: that value is an object, and
  every object is truthy.
\<close>

definition not_order :: "order \<Rightarrow> bool" where
  "not_order ord = False"

text \<open>
  The \<open>payment_intent.succeeded\<close> branch of \<open>handleStripeWebhook\<close>. An error thrown
  by either ORM call leaves the \<open>try\<close> block for \<open>next(err)\<close>; the first call has
  committed by the time the second one throws. \<open>if (order.userId)\<close> is false for
  \<open>null\<close> and for the empty string.
\<close>

definition payment_intent_succeeded :: "database \<Rightarrow> string \<Rightarrow> result" where
  "payment_intent_succeeded db pid =
     (case prisma_order_update pid paymentSucceeded (orders db) of
        Inl err \<Rightarrow> \<lparr>final = db, console = [], outcome = Next err\<rparr>
      | Inr (ord, os) \<Rightarrow>
          (let db1 = db\<lparr>orders := os\<rparr>;
               cleaned =
                 (case userId ord of
                    None \<Rightarrow> Inr db1
                  | Some uid \<Rightarrow>
                      if uid = [] then Inr db1
                      else prisma_user_update_cart_deleteMany uid
                             (map item_productId (items ord)) db1)
           in case cleaned of
                Inl err \<Rightarrow> \<lparr>final = db1, console = [], outcome = Next err\<rparr>
              | Inr db2 \<Rightarrow>
                  if not_order ord
                  then \<lparr>final = db2, console = [Log_order_not_found pid],
                        outcome = Response 404 (Json_error ''Order not found'')\<rparr>
                  else \<lparr>final = db2, console = [],
                        outcome = Response 200 Json_received\<rparr>))"

text \<open>
  \<open>req.headers['stripe-signature'] || ''\<close>: the header, or the empty string when the
  request has none.
\<close>

definition stripe_signature :: "request \<Rightarrow> string" where
  "stripe_signature req =
     (case map_of (headers req) ''stripe-signature'' of
        None \<Rightarrow> []
      | Some s \<Rightarrow> s)"

text \<open>
  \<open>handleStripeWebhook\<close>. \<open>stripe.webhooks.constructEvent\<close> and the webhook secret of
  the environment are parameters: the first returns the verified event, or the
  message of the error it throws.
\<close>

definition handleStripeWebhook ::
  "(string \<Rightarrow> string \<Rightarrow> string \<Rightarrow> string + event) \<Rightarrow> string \<Rightarrow> database \<Rightarrow> request \<Rightarrow> result" where
  "handleStripeWebhook constructEvent stripeWebhookSecret db req =
     (case constructEvent (body req) (stripe_signature req) stripeWebhookSecret of
        Inl err \<Rightarrow>
          \<lparr>final = db, console = [Log_error_message err],
           outcome = Response 400 (Send (''Webhook Error: '' @ err))\<rparr>
      | Inr ev \<Rightarrow>
          if ev_type ev = ''payment_intent.succeeded''
          then payment_intent_succeeded db (payment_intent_id ev)
          else \<lparr>final = db, console = [Log_unhandled_event_type (ev_type ev)],
                outcome = Response 200 Json_received\<rparr>)"

section \<open>Creating a payment intent\<close>

text \<open>
  The payment intent that \<open>stripe.paymentIntents.create\<close> returns. The amount sent
  to the provider is computed in floating point and plays no part in what is stored.
\<close>

record payment_intent =
  intent_id :: string
  client_secret :: string

record create_payment_intent_payload =
  payload_items :: "order_item list"
  payload_totalPrice :: real
  payload_userId :: "string option"

text \<open>
  \<open>prisma.order.create({data})\<close> appends the order. The nested write is one
  transaction, so a rejection leaves the tables as they were. The user to connect
  is looked up first and the write is rejected when there is none; then the order
  row is rejected when an order already has the payment intent; then the items are
  rejected when a quantity does not fit the 32-bit \<open>Int\<close> column, and when two of
  them name one product. The product and address tables are not in the model, and
  neither are the rejections that come from them.
\<close>

definition prisma_order_create :: "order \<Rightarrow> database \<Rightarrow> error + database" where
  "prisma_order_create data db =
     (if (case userId data of None \<Rightarrow> False | Some uid \<Rightarrow> uid \<notin> set (users db))
      then Inl (RecordNotFound ''User'')
      else if stripePaymentIntentId data \<in> set (map stripePaymentIntentId (orders db))
      then Inl (UniqueConstraintFailed ''stripePaymentIntentId'')
      else if \<not> list_all (\<lambda>i. - 2147483648 \<le> item_productQuantity i
                               \<and> item_productQuantity i \<le> 2147483647) (items data)
      then Inl (ValueOutOfRange ''productQuantity'')
      else if \<not> distinct (map item_productId (items data))
      then Inl (UniqueConstraintFailed ''orderId_productId'')
      else Inr (db\<lparr>orders := orders db @ [data]\<rparr>))"

text \<open>
  \<open>createPaymentIntent\<close>, with the outcome of the provider's call as a parameter.
  \<open>if (userId)\<close> connects no user for an absent or empty identifier.
\<close>

definition createPaymentIntent ::
  "(error + payment_intent) \<Rightarrow> database \<Rightarrow> create_payment_intent_payload \<Rightarrow> result" where
  "createPaymentIntent created db payload =
     (case created of
        Inl err \<Rightarrow> \<lparr>final = db, console = [Log_error err], outcome = Next err\<rparr>
      | Inr paymentIntent \<Rightarrow>
          (let data =
                 \<lparr>userId = (case payload_userId payload of
                              None \<Rightarrow> None
                            | Some uid \<Rightarrow> if uid = [] then None else Some uid),
                  items = payload_items payload,
                  totalPrice = payload_totalPrice payload,
                  stripePaymentIntentId = intent_id paymentIntent,
                  orderStatus = paymentInitiated\<rparr>
           in case prisma_order_create data db of
                Inl err \<Rightarrow>
                  \<lparr>final = db,
                   console = [Log_payment_intent_id (intent_id paymentIntent), Log_error err],
                   outcome = Next err\<rparr>
              | Inr db' \<Rightarrow>
                  \<lparr>final = db',
                   console = [Log_payment_intent_id (intent_id paymentIntent)],
                   outcome = Response 201 (Json_clientSecret (client_secret paymentIntent))\<rparr>))"

text \<open>The two handlers that write orders, as operations on the database.\<close>

datatype operation =
    CreatePaymentIntent "error + payment_intent" create_payment_intent_payload
  | StripeWebhook request

fun perform ::
  "(string \<Rightarrow> string \<Rightarrow> string \<Rightarrow> string + event) \<Rightarrow> string \<Rightarrow> database \<Rightarrow> operation \<Rightarrow> database" where
  "perform constructEvent secret db (CreatePaymentIntent created payload) =
     final (createPaymentIntent created db payload)"
| "perform constructEvent secret db (StripeWebhook req) =
     final (handleStripeWebhook constructEvent secret db req)"

text \<open>The place of a status in the chain of the schema.\<close>

fun rank :: "order_status \<Rightarrow> nat" where
  "rank paymentInitiated = 0"
| "rank paymentSucceeded = 1"
| "rank shipped = 2"
| "rank delivered = 3"

text \<open>
  Every order of the first table is at the same place in the second, with its
  payment intent, and its status is the old one or \<open>paymentSucceeded\<close>.
\<close>

definition status_kept_or_succeeded :: "order list \<Rightarrow> order list \<Rightarrow> bool" where
  "status_kept_or_succeeded os os' \<longleftrightarrow>
     length os \<le> length os' \<and>
     (\<forall>i < length os.
        stripePaymentIntentId (os' ! i) = stripePaymentIntentId (os ! i) \<and>
        (orderStatus (os' ! i) = orderStatus (os ! i) \<or>
         orderStatus (os' ! i) = paymentSucceeded))"

section \<open>The cart kept by the client\<close>

text \<open>
  \<open>Array.prototype.findIndex\<close>: the index of the first element that satisfies the
  test, \<open>-1\<close> when there is none.
\<close>

fun findIndex_from :: "('a \<Rightarrow> bool) \<Rightarrow> 'a list \<Rightarrow> int \<Rightarrow> int" where
  "findIndex_from P [] k = - 1"
| "findIndex_from P (x # xs) k = (if P x then k else findIndex_from P xs (k + 1))"

definition findIndex :: "('a \<Rightarrow> bool) \<Rightarrow> 'a list \<Rightarrow> int" where
  "findIndex P xs = findIndex_from P xs 0"

text \<open>
  \<open>Array.prototype.with\<close>: a copy with one element replaced. A negative index counts
  from the end, and an index outside the array throws a \<open>RangeError\<close>.
\<close>

definition array_with :: "'a list \<Rightarrow> int \<Rightarrow> 'a \<Rightarrow> error + 'a list" where
  "array_with xs index v =
     (let len = int (length xs);
          actualIndex = (if 0 \<le> index then index else len + index)
      in if actualIndex \<ge> len \<or> actualIndex < 0 then Inl RangeError
         else Inr (xs[nat actualIndex := v]))"

definition updateLocalCart :: "cart_item list \<Rightarrow> string \<Rightarrow> int \<Rightarrow> error + cart_item list" where
  "updateLocalCart cart itemToEditId newQuantity =
     (if length cart = 0 \<and> newQuantity = 0 then Inr cart
      else if newQuantity = 0
      then Inr (filter (\<lambda>cartItem. productId cartItem \<noteq> itemToEditId) cart)
      else (let existingItemIndex =
                  findIndex (\<lambda>cartItem. productId cartItem = itemToEditId) cart
            in if existingItemIndex \<noteq> - 1
               then array_with cart existingItemIndex
                      \<lparr>productId = itemToEditId, productQuantity = newQuantity\<rparr>
               else Inr (cart @ [\<lparr>productId = itemToEditId, productQuantity = newQuantity\<rparr>])))"

section \<open>Cart reconciliation\<close>

text \<open>
  \<open>updateCartItem\<close> builds \<open>userCartMap\<close> from the rows of the cart with
  \<open>new Map(items.map(item => [item.productId, item]))\<close>; of two rows with one
  product the later one is the value of the key.
\<close>

definition userCartMap :: "cart_item list \<Rightarrow> (string \<rightharpoonup> cart_item)" where
  "userCartMap rows = map_of (rev (map (\<lambda>item. (productId item, item)) rows))"

datatype action = Create | Update | Delete | No_op

text \<open>
  Modelled from the spec: the classification of one entry inside \<open>getActionArrays\<close>
  of \<open>utils/cartUtil\<close>, which is not among the sources. Sections 4.1 and 8: an entry
  with target quantity 0 is the removal signal and is routed to the deletes, whether
  or not its product is in the current items (where it is not, the delete removes
  nothing, which is the no-op that section 4.1 asks for); otherwise an entry whose
  product is not in the current items is a create, one whose product is there with
  another quantity is an update, and one with the same quantity is no operation.
\<close>

definition classify :: "(string \<rightharpoonup> cart_item) \<Rightarrow> cart_item \<Rightarrow> action" where
  "classify currentItems entry =
     (if productQuantity entry = 0 then Delete
      else (case currentItems (productId entry) of
              None \<Rightarrow> Create
            | Some current \<Rightarrow>
                if productQuantity current \<noteq> productQuantity entry then Update else No_op))"

record action_arrays =
  creates :: "cart_item list"
  updates :: "cart_item list"
  deletes :: "string list"

text \<open>
  Modelled from the spec: \<open>getActionArrays(items, userCartMap)\<close> of \<open>utils/cartUtil\<close>,
  which is not among the sources. Section 4.1: each entry of the desired items, in
  turn, is classified against the current items and put in the batch of its class;
  the deletes batch lists product identifiers.
\<close>

fun getActionArrays :: "cart_item list \<Rightarrow> (string \<rightharpoonup> cart_item) \<Rightarrow> action_arrays" where
  "getActionArrays [] currentItems = \<lparr>creates = [], updates = [], deletes = []\<rparr>"
| "getActionArrays (entry # rest) currentItems =
     (let arrays = getActionArrays rest currentItems
      in case classify currentItems entry of
           Create \<Rightarrow> arrays\<lparr>creates := entry # creates arrays\<rparr>
         | Update \<Rightarrow> arrays\<lparr>updates := entry # updates arrays\<rparr>
         | Delete \<Rightarrow> arrays\<lparr>deletes := productId entry # deletes arrays\<rparr>
         | No_op \<Rightarrow> arrays)"

datatype cart_write = Create_item cart_item | Update_item cart_item | Delete_item string

fun written_product :: "cart_write \<Rightarrow> string" where
  "written_product (Create_item entry) = productId entry"
| "written_product (Update_item entry) = productId entry"
| "written_product (Delete_item pid) = pid"

text \<open>
  Modelled from the spec: the writes of \<open>createCartItems\<close>, \<open>updateCartItems\<close> and
  \<open>deleteCartItems\<close> of \<open>utils/cartUtil\<close>, which are not among the sources, on the
  rows of one cart. Sections 3, 4.1 and 6: a create inserts the item and is rejected
  when the cart has the product already (one item per product per cart); an update
  sets the quantity of the item with the composite key and is rejected when there is
  none; a delete is of the \<open>deleteMany\<close> kind and removes the items of the product,
  none included.
\<close>

fun apply_write :: "cart_write \<Rightarrow> cart_item list \<Rightarrow> error + cart_item list" where
  "apply_write (Create_item entry) rows =
     (if productId entry \<in> set (map productId rows)
      then Inl (UniqueConstraintFailed ''cartId_productId'')
      else Inr (rows @ [entry]))"
| "apply_write (Update_item entry) rows =
     (if productId entry \<in> set (map productId rows)
      then Inr (map (\<lambda>row. if productId row = productId entry
                            then row\<lparr>productQuantity := productQuantity entry\<rparr>
                            else row) rows)
      else Inl (RecordNotFound ''CartItem''))"
| "apply_write (Delete_item pid) rows = Inr (filter (\<lambda>row. productId row \<noteq> pid) rows)"

text \<open>The rows once a write has settled: a rejected write leaves them as they were.\<close>

definition settle :: "cart_item list \<Rightarrow> cart_write \<Rightarrow> cart_item list" where
  "settle rows w = (case apply_write w rows of Inl err \<Rightarrow> rows | Inr rows' \<Rightarrow> rows')"

text \<open>
  The writes of the three batches, listed as \<open>updateCartItem\<close> passes the batches to
  \<open>Promise.all\<close>: updates, deletes, creates.
\<close>

definition batch_writes :: "action_arrays \<Rightarrow> cart_write list" where
  "batch_writes arrays =
     map Update_item (updates arrays) @ map Delete_item (deletes arrays)
     @ map Create_item (creates arrays)"

text \<open>A small shop used to run the handlers: one signed-in buyer, one guest order.\<close>

definition sample_db :: database where
  "sample_db =
     \<lparr>orders =
        [\<lparr>userId = Some ''u1'',
          items = [\<lparr>item_productId = ''P1'', item_productQuantity = 1\<rparr>,
                   \<lparr>item_productId = ''P2'', item_productQuantity = 2\<rparr>],
          totalPrice = 30, stripePaymentIntentId = ''pi_1'',
          orderStatus = paymentInitiated\<rparr>,
         \<lparr>userId = None,
          items = [\<lparr>item_productId = ''P3'', item_productQuantity = 1\<rparr>],
          totalPrice = 5, stripePaymentIntentId = ''pi_2'',
          orderStatus = shipped\<rparr>],
      users = [''u1'', ''u2''],
      carts =
        [\<lparr>cart_id = ''c1'', cart_userId = ''u1'',
          cart_items = [\<lparr>productId = ''P1'', productQuantity = 7\<rparr>,
                        \<lparr>productId = ''P4'', productQuantity = 1\<rparr>,
                        \<lparr>productId = ''P2'', productQuantity = 2\<rparr>]\<rparr>,
         \<lparr>cart_id = ''c2'', cart_userId = ''u2'',
          cart_items = [\<lparr>productId = ''P1'', productQuantity = 3\<rparr>]\<rparr>]\<rparr>"

text \<open>A shop whose only buyer has no cart: the schema lets a user be without one.\<close>

definition cartless_db :: database where
  "cartless_db =
     \<lparr>orders =
        [\<lparr>userId = Some ''u3'',
          items = [\<lparr>item_productId = ''P1'', item_productQuantity = 1\<rparr>],
          totalPrice = 12, stripePaymentIntentId = ''pi_3'',
          orderStatus = paymentInitiated\<rparr>],
      users = [''u3''],
      carts = []\<rparr>"

text \<open>Verification that accepts a request whose body names the payment intent.\<close>

definition accept_succeeded :: "string \<Rightarrow> string \<Rightarrow> string \<Rightarrow> string + event" where
  "accept_succeeded b s k =
     (if s = [] then Inl ''No signatures found''
      else Inr \<lparr>ev_type = ''payment_intent.succeeded'', payment_intent_id = b\<rparr>)"

definition signed_request :: "string \<Rightarrow> request" where
  "signed_request b = \<lparr>headers = [(''stripe-signature'', ''t=1,v1=ab'')], body = b\<rparr>"

text \<open>
  The provider takes an answer with a 2xx status as the acknowledgement of a
  delivery. An error handed to \<open>next\<close> is no answer of the handler.
\<close>

fun acknowledges :: "outcome \<Rightarrow> bool" where
  "acknowledges (Response code b) = (200 \<le> code \<and> code < 300)"
| "acknowledges (Next err) = False"

section \<open>Facts about the ORM calls\<close>

lemma update_first_None: "update_first P f xs = None \<longleftrightarrow> (\<forall>x \<in> set xs. \<not> P x)"
  by (induction xs) (auto split: option.splits)

lemma update_first_length: "update_first P f xs = Some (y, ys) \<Longrightarrow> length ys = length xs"
  by (induction xs arbitrary: y ys) (auto split: if_splits option.splits)

lemma update_first_again:
  assumes "update_first P f xs = Some (y, ys)"
    and "\<And>x. P x \<Longrightarrow> P (f x)"
    and "\<And>x. f (f x) = f x"
  shows "update_first P f ys = Some (y, ys)"
  using assms(1)
proof (induction xs arbitrary: y ys)
  case Nil
  then show ?case by simp
next
  case (Cons x xs)
  show ?case
  proof (cases "P x")
    case True
    with Cons.prems have "y = f x" "ys = f x # xs" by auto
    with True assms(2,3) show ?thesis by simp
  next
    case False
    with Cons.prems obtain zs where
      rest: "update_first P f xs = Some (y, zs)" and ys: "ys = x # zs"
      by (auto split: option.splits)
    from Cons.IH [OF rest] False ys show ?thesis by simp
  qed
qed

lemma succeeded_unknown_order:
  assumes "\<forall>ord \<in> set (orders db). stripePaymentIntentId ord \<noteq> pid"
  shows "payment_intent_succeeded db pid =
           \<lparr>final = db, console = [], outcome = Next (RecordNotFound ''Order'')\<rparr>"
proof -
  have "update_first (\<lambda>ord. stripePaymentIntentId ord = pid)
          (\<lambda>ord. ord\<lparr>orderStatus := paymentSucceeded\<rparr>) (orders db) = None"
    using assms by (simp add: update_first_None)
  then show ?thesis
    by (simp add: payment_intent_succeeded_def prisma_order_update_def)
qed

lemma prisma_order_update_again:
  assumes "prisma_order_update pid status os = Inr (ord, os')"
  shows "prisma_order_update pid status os' = Inr (ord, os')"
proof -
  let ?P = "\<lambda>ord. stripePaymentIntentId ord = pid"
  let ?f = "\<lambda>ord. ord\<lparr>orderStatus := status\<rparr>"
  from assms have "update_first ?P ?f os = Some (ord, os')"
    by (simp add: prisma_order_update_def split: option.splits)
  then have "update_first ?P ?f os' = Some (ord, os')"
    by (rule update_first_again) simp_all
  then show ?thesis by (simp add: prisma_order_update_def)
qed

lemma cart_deleteMany_again:
  assumes "prisma_user_update_cart_deleteMany uid pids db = Inr db'"
  shows "prisma_user_update_cart_deleteMany uid pids db' = Inr db'"
proof -
  let ?P = "\<lambda>c. cart_userId c = uid"
  let ?f = "\<lambda>c. c\<lparr>cart_items := filter (\<lambda>i. productId i \<notin> set pids) (cart_items c)\<rparr>"
  from assms obtain c cs where
    user: "uid \<in> set (users db)" and
    upd: "update_first ?P ?f (carts db) = Some (c, cs)" and
    db': "db' = db\<lparr>carts := cs\<rparr>"
    by (auto simp: prisma_user_update_cart_deleteMany_def split: if_splits option.splits)
  from upd have "update_first ?P ?f cs = Some (c, cs)"
    by (rule update_first_again) simp_all
  with user db' show ?thesis
    by (simp add: prisma_user_update_cart_deleteMany_def)
qed

lemma cart_deleteMany_orders:
  "prisma_user_update_cart_deleteMany uid pids db = Inr db' \<Longrightarrow> orders db' = orders db"
  by (auto simp: prisma_user_update_cart_deleteMany_def split: if_splits option.splits)

lemma succeeded_again:
  "payment_intent_succeeded (final (payment_intent_succeeded db pid)) pid =
     payment_intent_succeeded db pid"
proof (cases "prisma_order_update pid paymentSucceeded (orders db)")
  case (Inl err)
  then show ?thesis by (simp add: payment_intent_succeeded_def Let_def)
next
  case (Inr r)
  obtain ord os where r: "r = (ord, os)" by (cases r)
  from Inr r have again: "prisma_order_update pid paymentSucceeded os = Inr (ord, os)"
    by (simp add: prisma_order_update_again)
  define db1 where "db1 = db\<lparr>orders := os\<rparr>"
  have db1: "orders db1 = os" and same1: "db1\<lparr>orders := os\<rparr> = db1"
    by (simp_all add: db1_def)
  show ?thesis
  proof (cases "\<exists>uid. userId ord = Some uid \<and> uid \<noteq> []")
    case False
    then have skip: "userId ord = None \<or> userId ord = Some []" by (cases "userId ord") auto
    then have first: "payment_intent_succeeded db pid =
        \<lparr>final = db1, console = [], outcome = Response 200 Json_received\<rparr>"
      using Inr r by (auto simp: payment_intent_succeeded_def db1_def not_order_def)
    from skip again db1 have "payment_intent_succeeded db1 pid =
        \<lparr>final = db1, console = [], outcome = Response 200 Json_received\<rparr>"
      by (auto simp: payment_intent_succeeded_def not_order_def Let_def same1)
    with first show ?thesis by simp
  next
    case True
    then obtain uid where uid: "userId ord = Some uid" "uid \<noteq> []" by blast
    let ?pids = "map item_productId (items ord)"
    show ?thesis
    proof (cases "prisma_user_update_cart_deleteMany uid ?pids db1")
      case (Inl err)
      then have first: "payment_intent_succeeded db pid =
          \<lparr>final = db1, console = [], outcome = Next err\<rparr>"
        using Inr r uid by (simp add: payment_intent_succeeded_def db1_def)
      from Inl again db1 uid have "payment_intent_succeeded db1 pid =
          \<lparr>final = db1, console = [], outcome = Next err\<rparr>"
        by (simp add: payment_intent_succeeded_def Let_def same1)
      with first show ?thesis by simp
    next
      case (Inr db2)
      then have first: "payment_intent_succeeded db pid =
          \<lparr>final = db2, console = [], outcome = Response 200 Json_received\<rparr>"
        using \<open>prisma_order_update pid paymentSucceeded (orders db) = Inr r\<close> r uid
        by (simp add: payment_intent_succeeded_def db1_def not_order_def)
      from Inr have o2: "orders db2 = os" using db1 by (simp add: cart_deleteMany_orders)
      then have same: "db2\<lparr>orders := os\<rparr> = db2" by (cases db2) simp
      from Inr have "prisma_user_update_cart_deleteMany uid ?pids db2 = Inr db2"
        by (rule cart_deleteMany_again)
      with again o2 uid have "payment_intent_succeeded db2 pid =
          \<lparr>final = db2, console = [], outcome = Response 200 Json_received\<rparr>"
        by (simp add: payment_intent_succeeded_def not_order_def Let_def same)
      with first show ?thesis by simp
    qed
  qed
qed


lemma update_first_find:
  "update_first P f xs = Some (y, ys) \<Longrightarrow> \<exists>x. find P xs = Some x \<and> y = f x"
  by (induction xs arbitrary: y ys) (auto split: if_splits option.splits)

lemma find_update_first:
  "find P xs = Some x \<Longrightarrow> \<exists>ys. update_first P f xs = Some (f x, ys)"
  by (induction xs) (auto split: if_splits)

lemma update_first_find_after:
  assumes "update_first P f xs = Some (y, ys)" and "\<And>x. P x \<Longrightarrow> P (f x)"
  shows "find P ys = Some y"
  using assms(1)
proof (induction xs arbitrary: y ys)
  case Nil
  then show ?case by simp
next
  case (Cons x xs)
  then show ?case using assms(2)
    by (auto split: if_splits option.splits)
qed

lemma order_update_found:
  assumes "find (\<lambda>ord. stripePaymentIntentId ord = pid) (orders db) = Some ord"
  shows "\<exists>os. prisma_order_update pid status (orders db) =
            Inr (ord\<lparr>orderStatus := status\<rparr>, os)"
  using find_update_first [OF assms, of "\<lambda>ord. ord\<lparr>orderStatus := status\<rparr>"]
  by (auto simp: prisma_order_update_def)

lemma succeeded_guest:
  assumes "find (\<lambda>ord. stripePaymentIntentId ord = pid) (orders db) = Some ord"
    and "userId ord = None \<or> userId ord = Some []"
  shows "\<exists>os. payment_intent_succeeded db pid =
           \<lparr>final = db\<lparr>orders := os\<rparr>, console = [], outcome = Response 200 Json_received\<rparr>"
proof -
  from order_update_found [OF assms(1), of paymentSucceeded] obtain os where
    "prisma_order_update pid paymentSucceeded (orders db) =
       Inr (ord\<lparr>orderStatus := paymentSucceeded\<rparr>, os)" ..
  with assms(2) show ?thesis
    by (auto simp: payment_intent_succeeded_def not_order_def Let_def)
qed

lemma succeeded_owner:
  assumes "find (\<lambda>ord. stripePaymentIntentId ord = pid) (orders db) = Some ord"
    and "userId ord = Some uid" and "uid \<noteq> []" and "uid \<in> set (users db)"
    and "find (\<lambda>c. cart_userId c = uid) (carts db) = Some c"
  shows "\<exists>os cs. payment_intent_succeeded db pid =
           \<lparr>final = db\<lparr>orders := os, carts := cs\<rparr>, console = [],
            outcome = Response 200 Json_received\<rparr>
         \<and> find (\<lambda>c. cart_userId c = uid) cs =
             Some (c\<lparr>cart_items :=
                      filter (\<lambda>i. productId i \<notin> set (map item_productId (items ord)))
                        (cart_items c)\<rparr>)"
proof -
  let ?g = "\<lambda>c. c\<lparr>cart_items :=
                filter (\<lambda>i. productId i \<notin> set (map item_productId (items ord))) (cart_items c)\<rparr>"
  from order_update_found [OF assms(1), of paymentSucceeded] obtain os where
    os: "prisma_order_update pid paymentSucceeded (orders db) =
       Inr (ord\<lparr>orderStatus := paymentSucceeded\<rparr>, os)" ..
  from find_update_first [OF assms(5), of ?g] obtain cs where
    cs: "update_first (\<lambda>c. cart_userId c = uid) ?g (carts db) = Some (?g c, cs)" ..
  have after: "find (\<lambda>c. cart_userId c = uid) cs = Some (?g c)"
    by (rule update_first_find_after [OF cs]) simp
  from os cs assms(2,3,4) have "payment_intent_succeeded db pid =
      \<lparr>final = db\<lparr>orders := os, carts := cs\<rparr>, console = [],
       outcome = Response 200 Json_received\<rparr>"
    by (simp add: payment_intent_succeeded_def prisma_user_update_cart_deleteMany_def
        not_order_def Let_def)
  with after show ?thesis by blast
qed


section \<open>Order status through the operations\<close>

lemma kept_refl: "status_kept_or_succeeded os os"
  by (simp add: status_kept_or_succeeded_def)

lemma kept_trans:
  assumes "status_kept_or_succeeded os os'" and "status_kept_or_succeeded os' os''"
  shows "status_kept_or_succeeded os os''"
  unfolding status_kept_or_succeeded_def
proof (intro conjI allI impI)
  from assms show "length os \<le> length os''"
    by (simp add: status_kept_or_succeeded_def)
next
  fix i assume i: "i < length os"
  with assms(1) have i': "i < length os'" by (simp add: status_kept_or_succeeded_def)
  from assms(1) i have a: "stripePaymentIntentId (os' ! i) = stripePaymentIntentId (os ! i)"
    "orderStatus (os' ! i) = orderStatus (os ! i) \<or> orderStatus (os' ! i) = paymentSucceeded"
    by (simp_all add: status_kept_or_succeeded_def)
  from assms(2) i' have b: "stripePaymentIntentId (os'' ! i) = stripePaymentIntentId (os' ! i)"
    "orderStatus (os'' ! i) = orderStatus (os' ! i) \<or> orderStatus (os'' ! i) = paymentSucceeded"
    by (simp_all add: status_kept_or_succeeded_def)
  from a b show "stripePaymentIntentId (os'' ! i) = stripePaymentIntentId (os ! i)" by simp
  from a b show "orderStatus (os'' ! i) = orderStatus (os ! i) \<or>
      orderStatus (os'' ! i) = paymentSucceeded" by auto
qed

lemma update_first_nth_all:
  "update_first P f xs = Some (y, ys) \<Longrightarrow>
     \<forall>i < length xs. ys ! i = xs ! i \<or> ys ! i = f (xs ! i)"
proof (induction xs arbitrary: y ys)
  case Nil
  then show ?case by simp
next
  case (Cons x xs)
  show ?case
  proof (cases "P x")
    case True
    with Cons.prems have "ys = f x # xs" by auto
    then show ?thesis by (simp add: nth_Cons split: nat.splits)
  next
    case False
    with Cons.prems obtain zs where
      rest: "update_first P f xs = Some (y, zs)" and ys: "ys = x # zs"
      by (auto split: option.splits)
    from Cons.IH [OF rest] ys show ?thesis
      by (simp add: nth_Cons split: nat.splits)
  qed
qed

lemma update_first_nth:
  "update_first P f xs = Some (y, ys) \<Longrightarrow> i < length xs \<Longrightarrow>
     ys ! i = xs ! i \<or> ys ! i = f (xs ! i)"
  using update_first_nth_all [of P f xs y ys] by simp

lemma succeeded_final_orders:
  assumes run: "prisma_order_update pid paymentSucceeded (orders db) = Inr (ord, os)"
  shows "orders (final (payment_intent_succeeded db pid)) = os"
proof (cases "\<exists>uid. userId ord = Some uid \<and> uid \<noteq> []")
  case False
  then have "userId ord = None \<or> userId ord = Some []" by (cases "userId ord") auto
  with run show ?thesis
    by (auto simp: payment_intent_succeeded_def Let_def not_order_def)
next
  case True
  then obtain uid where uid: "userId ord = Some uid" "uid \<noteq> []" by blast
  show ?thesis
  proof (cases "prisma_user_update_cart_deleteMany uid (map item_productId (items ord))
                  (db\<lparr>orders := os\<rparr>)")
    case (Inl err)
    with run uid show ?thesis
      by (simp add: payment_intent_succeeded_def Let_def)
  next
    case cleaned: (Inr db2)
    then have "orders db2 = os" by (simp add: cart_deleteMany_orders [OF cleaned])
    with cleaned run uid show ?thesis
      by (simp add: payment_intent_succeeded_def Let_def not_order_def)
  qed
qed

lemma succeeded_orders:
  "status_kept_or_succeeded (orders db) (orders (final (payment_intent_succeeded db pid)))"
proof (cases "prisma_order_update pid paymentSucceeded (orders db)")
  case (Inl err)
  then show ?thesis by (simp add: payment_intent_succeeded_def kept_refl)
next
  case (Inr r)
  obtain ord os where r: "r = (ord, os)" by (cases r)
  let ?f = "\<lambda>ord. ord\<lparr>orderStatus := paymentSucceeded\<rparr>"
  from Inr r have upd: "update_first (\<lambda>ord. stripePaymentIntentId ord = pid) ?f (orders db) =
      Some (ord, os)"
    by (simp add: prisma_order_update_def split: option.splits)
  have kept: "status_kept_or_succeeded (orders db) os"
    unfolding status_kept_or_succeeded_def
  proof (intro conjI allI impI)
    from upd show "length (orders db) \<le> length os" by (simp add: update_first_length)
  next
    fix i assume "i < length (orders db)"
    from update_first_nth [OF upd this]
    show "stripePaymentIntentId (os ! i) = stripePaymentIntentId (orders db ! i)"
      and "orderStatus (os ! i) = orderStatus (orders db ! i) \<or>
        orderStatus (os ! i) = paymentSucceeded"
      by auto
  qed
  from Inr r have "orders (final (payment_intent_succeeded db pid)) = os"
    by (simp add: succeeded_final_orders)
  with kept show ?thesis by simp
qed

lemma webhook_orders:
  "status_kept_or_succeeded (orders db) (orders (final (handleStripeWebhook ce secret db req)))"
  by (simp add: handleStripeWebhook_def kept_refl succeeded_orders split: sum.splits)

lemma prisma_order_create_appends:
  "prisma_order_create data db = Inr db' \<Longrightarrow> orders db' = orders db @ [data]"
  by (auto simp: prisma_order_create_def split: if_splits option.splits)

lemma kept_append: "status_kept_or_succeeded os (os @ xs)"
  by (simp add: status_kept_or_succeeded_def nth_append)

lemma createPaymentIntent_orders:
  "orders (final (createPaymentIntent created db payload)) = orders db
   \<or> (\<exists>data. orders (final (createPaymentIntent created db payload)) = orders db @ [data]
         \<and> orderStatus data = paymentInitiated)"
proof (cases created)
  case (Inl err)
  then show ?thesis by (simp add: createPaymentIntent_def)
next
  case (Inr paymentIntent)
  then show ?thesis
    by (auto simp: createPaymentIntent_def Let_def dest!: prisma_order_create_appends
        split: sum.splits)
qed

lemma create_orders:
  "status_kept_or_succeeded (orders db) (orders (final (createPaymentIntent created db payload)))"
  using createPaymentIntent_orders [of created db payload]
  by (auto simp: kept_refl kept_append)

lemma perform_orders:
  "status_kept_or_succeeded (orders db) (orders (perform ce secret db op))"
  by (cases op) (simp_all add: webhook_orders create_orders)

lemma operations_orders:
  "status_kept_or_succeeded (orders db) (orders (foldl (perform ce secret) db ops))"
proof (induction ops arbitrary: db)
  case Nil
  show ?case by (simp add: kept_refl)
next
  case (Cons op ops)
  from perform_orders Cons.IH show ?case
    unfolding foldl_Cons by (rule kept_trans)
qed


lemma succeeded_sets_status:
  assumes "find (\<lambda>ord. stripePaymentIntentId ord = pid) (orders db) = Some ord"
  shows "find (\<lambda>ord. stripePaymentIntentId ord = pid)
           (orders (final (payment_intent_succeeded db pid))) =
         Some (ord\<lparr>orderStatus := paymentSucceeded\<rparr>)"
proof -
  let ?P = "\<lambda>ord. stripePaymentIntentId ord = pid"
  let ?f = "\<lambda>ord. ord\<lparr>orderStatus := paymentSucceeded\<rparr>"
  from find_update_first [OF assms, of ?f] obtain os where
    upd: "update_first ?P ?f (orders db) = Some (?f ord, os)" ..
  have after: "find ?P os = Some (?f ord)"
    by (rule update_first_find_after [OF upd]) simp
  from upd have "prisma_order_update pid paymentSucceeded (orders db) = Inr (?f ord, os)"
    by (simp add: prisma_order_update_def)
  then have "orders (final (payment_intent_succeeded db pid)) = os"
    by (rule succeeded_final_orders)
  with after show ?thesis by simp
qed

lemma succeeded_never_404:
  "outcome (payment_intent_succeeded db pid) \<noteq> Response 404 b"
  by (simp add: payment_intent_succeeded_def Let_def not_order_def
      split: sum.splits prod.splits option.splits)

lemma handler_never_404:
  "outcome (handleStripeWebhook constructEvent secret db req) \<noteq> Response 404 b"
  by (simp add: handleStripeWebhook_def succeeded_never_404 split: sum.splits)

section \<open>Signature failures\<close>

text \<open>
  C7. When the verification of the signature fails, the handler answers 400 at once
  and the database it leaves is the one it found: no order and no cart is changed.
\<close>

theorem signature_failure_400:
  assumes "constructEvent (body req) (stripe_signature req) secret = Inl err"
  shows "handleStripeWebhook constructEvent secret db req =
           \<lparr>final = db, console = [Log_error_message err],
            outcome = Response 400 (Send (''Webhook Error: '' @ err))\<rparr>"
  using assms by (simp add: handleStripeWebhook_def)

theorem signature_failure_400_witness:
  "accept_succeeded (body \<lparr>headers = [], body = ''pi_1''\<rparr>)
     (stripe_signature \<lparr>headers = [], body = ''pi_1''\<rparr>) ''whsec'' = Inl ''No signatures found''
   \<and> handleStripeWebhook accept_succeeded ''whsec'' sample_db \<lparr>headers = [], body = ''pi_1''\<rparr> =
       \<lparr>final = sample_db, console = [Log_error_message ''No signatures found''],
        outcome = Response 400 (Send ''Webhook Error: No signatures found'')\<rparr>"
proof -
  have h: "accept_succeeded (body \<lparr>headers = [], body = ''pi_1''\<rparr>)
             (stripe_signature \<lparr>headers = [], body = ''pi_1''\<rparr>) ''whsec'' = Inl ''No signatures found''"
    by (simp add: accept_succeeded_def stripe_signature_def)
  from h signature_failure_400
         [where constructEvent = accept_succeeded
            and req = "\<lparr>headers = [], body = ''pi_1''\<rparr>" and secret = "''whsec''"
            and err = "''No signatures found''" and db = sample_db]
  show ?thesis by simp
qed

section \<open>A payment intent that no order has\<close>

text \<open>
  C1. A verified \<open>payment_intent.succeeded\<close> event for \<open>pi_999\<close>, which no order of
  the shop has: the update throws, the handler passes the error to \<open>next\<close>, and the
  404 answer written after the cart step is not reached. The database is left as it
  was.
\<close>

theorem unknown_payment_intent_goes_to_next:
  "handleStripeWebhook accept_succeeded ''whsec'' sample_db (signed_request ''pi_999'') =
     \<lparr>final = sample_db, console = [], outcome = Next (RecordNotFound ''Order'')\<rparr>"
proof -
  have "\<forall>ord \<in> set (orders sample_db). stripePaymentIntentId ord \<noteq> ''pi_999''"
    by (simp add: sample_db_def)
  then show ?thesis
    by (simp add: handleStripeWebhook_def accept_succeeded_def signed_request_def
        stripe_signature_def succeeded_unknown_order)
qed

section \<open>The same notification twice\<close>

text \<open>
  C2, as stated, fails: the order \<open>pi_3\<close> is stored and its owner is a user without
  a cart. The first run writes the status and the cart update throws; the second
  run, on the database the first one left, ends in the same error.
\<close>

theorem cartless_owner_second_run_errors:
  "outcome (payment_intent_succeeded (final (payment_intent_succeeded cartless_db ''pi_3''))
      ''pi_3'') = Next (RecordNotFound ''Cart'')"
  by (simp add: payment_intent_succeeded_def prisma_order_update_def
      prisma_user_update_cart_deleteMany_def cartless_db_def Let_def)

text \<open>
  C2, amended. Running the \<open>payment_intent.succeeded\<close> branch a second time, on the
  database the first run left and with the same payment intent, gives the result of
  the first run again: the same orders, the same carts, the same answer, for every
  database and every payment intent. Where the order is stored and its owner, if it
  has one, is a user with a cart, that answer is the acknowledgement, so the second
  run does not fail on items already removed.
\<close>

theorem payment_succeeded_twice:
  "payment_intent_succeeded (final (payment_intent_succeeded db pid)) pid =
     payment_intent_succeeded db pid
   \<and> (\<forall>ord. find (\<lambda>ord. stripePaymentIntentId ord = pid) (orders db) = Some ord
            \<and> (userId ord = None
                \<or> (\<exists>uid. userId ord = Some uid \<and> uid \<in> set (users db)
                       \<and> (\<exists>c \<in> set (carts db). cart_userId c = uid)))
        \<longrightarrow> outcome (payment_intent_succeeded (final (payment_intent_succeeded db pid)) pid) =
              Response 200 Json_received)"
proof (intro conjI allI impI)
  show again: "payment_intent_succeeded (final (payment_intent_succeeded db pid)) pid =
      payment_intent_succeeded db pid"
    by (rule succeeded_again)
  fix ord
  assume h: "find (\<lambda>ord. stripePaymentIntentId ord = pid) (orders db) = Some ord
     \<and> (userId ord = None
         \<or> (\<exists>uid. userId ord = Some uid \<and> uid \<in> set (users db)
                \<and> (\<exists>c \<in> set (carts db). cart_userId c = uid)))"
  then have found: "find (\<lambda>ord. stripePaymentIntentId ord = pid) (orders db) = Some ord"
    by simp
  have "outcome (payment_intent_succeeded db pid) = Response 200 Json_received"
  proof (cases "userId ord = None \<or> userId ord = Some []")
    case True
    from succeeded_guest [OF found True] show ?thesis by auto
  next
    case False
    from h False obtain uid where owner: "userId ord = Some uid \<and> uid \<in> set (users db)
        \<and> (\<exists>c \<in> set (carts db). cart_userId c = uid)"
      by auto
    with False have uid: "userId ord = Some uid" "uid \<noteq> []" "uid \<in> set (users db)"
      and has_cart: "\<exists>c \<in> set (carts db). cart_userId c = uid"
      by auto
    from has_cart obtain c where "find (\<lambda>c. cart_userId c = uid) (carts db) = Some c"
      by (cases "find (\<lambda>c. cart_userId c = uid) (carts db)") (auto simp: find_None_iff)
    from succeeded_owner [OF found uid this] show ?thesis by auto
  qed
  with again
  show "outcome (payment_intent_succeeded (final (payment_intent_succeeded db pid)) pid) =
      Response 200 Json_received"
    by simp
qed

lemma sample_first_run:
  "payment_intent_succeeded sample_db ''pi_1'' =
     \<lparr>final = sample_db
        \<lparr>orders :=
           [\<lparr>userId = Some ''u1'',
             items = [\<lparr>item_productId = ''P1'', item_productQuantity = 1\<rparr>,
                      \<lparr>item_productId = ''P2'', item_productQuantity = 2\<rparr>],
             totalPrice = 30, stripePaymentIntentId = ''pi_1'',
             orderStatus = paymentSucceeded\<rparr>,
            \<lparr>userId = None,
             items = [\<lparr>item_productId = ''P3'', item_productQuantity = 1\<rparr>],
             totalPrice = 5, stripePaymentIntentId = ''pi_2'',
             orderStatus = shipped\<rparr>],
         carts :=
           [\<lparr>cart_id = ''c1'', cart_userId = ''u1'',
             cart_items = [\<lparr>productId = ''P4'', productQuantity = 1\<rparr>]\<rparr>,
            \<lparr>cart_id = ''c2'', cart_userId = ''u2'',
             cart_items = [\<lparr>productId = ''P1'', productQuantity = 3\<rparr>]\<rparr>]\<rparr>,
      console = [], outcome = Response 200 Json_received\<rparr>"
  by (simp add: payment_intent_succeeded_def prisma_order_update_def
      prisma_user_update_cart_deleteMany_def not_order_def sample_db_def Let_def)

theorem payment_succeeded_twice_witness:
  "payment_intent_succeeded (final (payment_intent_succeeded sample_db ''pi_1'')) ''pi_1'' =
     payment_intent_succeeded sample_db ''pi_1''
   \<and> outcome (payment_intent_succeeded (final (payment_intent_succeeded sample_db ''pi_1''))
        ''pi_1'') = Response 200 Json_received"
proof -
  have "find (\<lambda>ord. stripePaymentIntentId ord = ''pi_1'') (orders sample_db) =
      Some (hd (orders sample_db))"
    and "userId (hd (orders sample_db)) = Some ''u1''"
    and "''u1'' \<in> set (users sample_db)"
    and "\<exists>c \<in> set (carts sample_db). cart_userId c = ''u1''"
    by (simp_all add: sample_db_def)
  with payment_succeeded_twice [of sample_db "''pi_1''"] show ?thesis
    by blast
qed

section \<open>Cart clean-up after a payment\<close>

text \<open>
  C4. When the succeeded-payment branch processes a stored order: an order without
  owner leaves every cart as it was; for an order owned by a user, the cart of that
  user keeps exactly the items whose product is none of the order's products, so
  each item of an ordered product is removed whatever its quantity.
\<close>

theorem cart_cleanup_after_payment:
  assumes "find (\<lambda>ord. stripePaymentIntentId ord = pid) (orders db) = Some ord"
  shows "(userId ord = None \<longrightarrow> carts (final (payment_intent_succeeded db pid)) = carts db)
       \<and> (\<forall>uid c. userId ord = Some uid \<and> uid \<noteq> [] \<and> uid \<in> set (users db)
              \<and> find (\<lambda>c. cart_userId c = uid) (carts db) = Some c
            \<longrightarrow> find (\<lambda>c. cart_userId c = uid) (carts (final (payment_intent_succeeded db pid))) =
                  Some (c\<lparr>cart_items :=
                            filter (\<lambda>i. productId i \<notin> set (map item_productId (items ord)))
                              (cart_items c)\<rparr>))"
proof (intro conjI allI impI)
  assume "userId ord = None"
  then have "userId ord = None \<or> userId ord = Some []" by simp
  from succeeded_guest [OF assms this]
  show "carts (final (payment_intent_succeeded db pid)) = carts db" by auto
next
  fix uid c
  assume h: "userId ord = Some uid \<and> uid \<noteq> [] \<and> uid \<in> set (users db)
     \<and> find (\<lambda>c. cart_userId c = uid) (carts db) = Some c"
  then have "userId ord = Some uid" "uid \<noteq> []" "uid \<in> set (users db)"
    "find (\<lambda>c. cart_userId c = uid) (carts db) = Some c"
    by simp_all
  from succeeded_owner [OF assms this]
  show "find (\<lambda>c. cart_userId c = uid) (carts (final (payment_intent_succeeded db pid))) =
      Some (c\<lparr>cart_items :=
                filter (\<lambda>i. productId i \<notin> set (map item_productId (items ord)))
                  (cart_items c)\<rparr>)"
    by auto
qed

theorem cart_cleanup_after_payment_witness:
  "find (\<lambda>c. cart_userId c = ''u1'') (carts (final (payment_intent_succeeded sample_db ''pi_1''))) =
     Some \<lparr>cart_id = ''c1'', cart_userId = ''u1'',
           cart_items = [\<lparr>productId = ''P4'', productQuantity = 1\<rparr>]\<rparr>"
proof -
  have found: "find (\<lambda>ord. stripePaymentIntentId ord = ''pi_1'') (orders sample_db) =
      Some (hd (orders sample_db))"
    by (simp add: sample_db_def)
  have "userId (hd (orders sample_db)) = Some ''u1'' \<and> ''u1'' \<noteq> []
      \<and> ''u1'' \<in> set (users sample_db)
      \<and> find (\<lambda>c. cart_userId c = ''u1'') (carts sample_db) = Some (hd (carts sample_db))"
    by (simp add: sample_db_def)
  with cart_cleanup_after_payment [OF found]
  have "find (\<lambda>c. cart_userId c = ''u1'')
          (carts (final (payment_intent_succeeded sample_db ''pi_1''))) =
        Some ((hd (carts sample_db))\<lparr>cart_items :=
                filter (\<lambda>i. productId i \<notin> set (map item_productId (items (hd (orders sample_db)))))
                  (cart_items (hd (carts sample_db)))\<rparr>)"
    by blast
  then show ?thesis by (simp add: sample_db_def)
qed


section \<open>Acknowledgement of an unknown payment intent\<close>

text \<open>
  C5, as stated, fails: the verified event for \<open>pi_999\<close>, which no order of the shop
  has, is not acknowledged.
\<close>

theorem unknown_payment_intent_not_acknowledged:
  "\<not> acknowledges (outcome (handleStripeWebhook accept_succeeded ''whsec'' sample_db
        (signed_request ''pi_999'')))"
proof -
  have "\<forall>ord \<in> set (orders sample_db). stripePaymentIntentId ord \<noteq> ''pi_999''"
    by (simp add: sample_db_def)
  then show ?thesis
    by (simp add: handleStripeWebhook_def accept_succeeded_def signed_request_def
        stripe_signature_def succeeded_unknown_order)
qed

text \<open>
  C5, amended. A verified \<open>payment_intent.succeeded\<close> event whose payment intent no
  stored order has is not acknowledged by the handler, and the database is left as
  it was.
\<close>

theorem lookup_failure_rejected:
  assumes "constructEvent (body req) (stripe_signature req) secret = Inr ev"
    and "ev_type ev = ''payment_intent.succeeded''"
    and "\<forall>ord \<in> set (orders db). stripePaymentIntentId ord \<noteq> payment_intent_id ev"
  shows "\<not> acknowledges (outcome (handleStripeWebhook constructEvent secret db req))
       \<and> final (handleStripeWebhook constructEvent secret db req) = db"
  using assms by (simp add: handleStripeWebhook_def succeeded_unknown_order)

theorem lookup_failure_rejected_witness:
  "\<not> acknowledges (outcome (handleStripeWebhook accept_succeeded ''whsec'' sample_db
        (signed_request ''pi_404'')))
   \<and> final (handleStripeWebhook accept_succeeded ''whsec'' sample_db (signed_request ''pi_404'')) =
       sample_db"
proof -
  have "accept_succeeded (body (signed_request ''pi_404''))
          (stripe_signature (signed_request ''pi_404'')) ''whsec'' =
        Inr \<lparr>ev_type = ''payment_intent.succeeded'', payment_intent_id = ''pi_404''\<rparr>"
    by (simp add: accept_succeeded_def signed_request_def stripe_signature_def)
  moreover have "ev_type \<lparr>ev_type = ''payment_intent.succeeded'', payment_intent_id = ''pi_404''\<rparr> =
      ''payment_intent.succeeded''"
    by simp
  moreover have "\<forall>ord \<in> set (orders sample_db). stripePaymentIntentId ord \<noteq>
      payment_intent_id \<lparr>ev_type = ''payment_intent.succeeded'', payment_intent_id = ''pi_404''\<rparr>"
    by (simp add: sample_db_def)
  ultimately show ?thesis by (rule lookup_failure_rejected)
qed

section \<open>Order status\<close>

text \<open>
  C6, as stated, fails: the guest order of the shop has been shipped, and a
  succeeded-payment event for its payment intent moves it back to
  \<open>paymentSucceeded\<close>.
\<close>

theorem shipped_order_moves_back:
  "rank (orderStatus (orders (final (handleStripeWebhook accept_succeeded ''whsec'' sample_db
           (signed_request ''pi_2''))) ! 1))
     < rank (orderStatus (orders sample_db ! 1))"
  by (simp add: handleStripeWebhook_def accept_succeeded_def signed_request_def
      stripe_signature_def payment_intent_succeeded_def prisma_order_update_def
      not_order_def sample_db_def Let_def)

text \<open>
  C6, amended. Through any sequence of payment-intent creations and webhook
  deliveries, a stored order keeps its place and its payment intent, it is never
  put back to \<open>paymentInitiated\<close>, and an order at \<open>paymentInitiated\<close> or
  \<open>paymentSucceeded\<close> never moves backward. A verified succeeded-payment event
  writes \<open>paymentSucceeded\<close> on the order of its payment intent whatever the status
  was, so an order already shipped or delivered is moved back to it.
\<close>

theorem status_through_operations:
  "length (orders db) \<le> length (orders (foldl (perform constructEvent secret) db ops))
   \<and> (\<forall>i < length (orders db).
         stripePaymentIntentId (orders (foldl (perform constructEvent secret) db ops) ! i) =
           stripePaymentIntentId (orders db ! i)
         \<and> (orderStatus (orders (foldl (perform constructEvent secret) db ops) ! i) =
               paymentInitiated
              \<longrightarrow> orderStatus (orders db ! i) = paymentInitiated)
         \<and> (rank (orderStatus (orders db ! i)) \<le> 1
              \<longrightarrow> rank (orderStatus (orders db ! i))
                    \<le> rank (orderStatus (orders (foldl (perform constructEvent secret) db ops) ! i))))
   \<and> (\<forall>ev ord. constructEvent (body req) (stripe_signature req) secret = Inr ev
           \<and> ev_type ev = ''payment_intent.succeeded''
           \<and> find (\<lambda>ord. stripePaymentIntentId ord = payment_intent_id ev) (orders db) = Some ord
         \<longrightarrow> find (\<lambda>ord. stripePaymentIntentId ord = payment_intent_id ev)
               (orders (final (handleStripeWebhook constructEvent secret db req))) =
             Some (ord\<lparr>orderStatus := paymentSucceeded\<rparr>))"
proof (intro conjI allI impI)
  let ?os' = "orders (foldl (perform constructEvent secret) db ops)"
  have kept: "status_kept_or_succeeded (orders db) ?os'"
    by (rule operations_orders)
  then show "length (orders db) \<le> length ?os'"
    by (simp add: status_kept_or_succeeded_def)
  fix i assume i: "i < length (orders db)"
  with kept have pid: "stripePaymentIntentId (?os' ! i) = stripePaymentIntentId (orders db ! i)"
    and st: "orderStatus (?os' ! i) = orderStatus (orders db ! i)
             \<or> orderStatus (?os' ! i) = paymentSucceeded"
    by (simp_all add: status_kept_or_succeeded_def)
  from pid show "stripePaymentIntentId (?os' ! i) = stripePaymentIntentId (orders db ! i)" .
  {
    assume "orderStatus (?os' ! i) = paymentInitiated"
    with st show "orderStatus (orders db ! i) = paymentInitiated" by auto
  }
  {
    assume "rank (orderStatus (orders db ! i)) \<le> 1"
    with st show "rank (orderStatus (orders db ! i)) \<le> rank (orderStatus (?os' ! i))"
      by (cases "orderStatus (orders db ! i)") auto
  }
next
  fix ev ord
  assume h: "constructEvent (body req) (stripe_signature req) secret = Inr ev
     \<and> ev_type ev = ''payment_intent.succeeded''
     \<and> find (\<lambda>ord. stripePaymentIntentId ord = payment_intent_id ev) (orders db) = Some ord"
  then have "find (\<lambda>ord. stripePaymentIntentId ord = payment_intent_id ev) (orders db) = Some ord"
    by simp
  from succeeded_sets_status [OF this] h
  show "find (\<lambda>ord. stripePaymentIntentId ord = payment_intent_id ev)
          (orders (final (handleStripeWebhook constructEvent secret db req))) =
        Some (ord\<lparr>orderStatus := paymentSucceeded\<rparr>)"
    by (simp add: handleStripeWebhook_def)
qed


theorem status_through_operations_witness:
  "rank (orderStatus (orders sample_db ! 0))
     \<le> rank (orderStatus (orders (foldl (perform accept_succeeded ''whsec'') sample_db
                [StripeWebhook (signed_request ''pi_1'')]) ! 0))
   \<and> find (\<lambda>ord. stripePaymentIntentId ord = ''pi_2'')
       (orders (final (handleStripeWebhook accept_succeeded ''whsec'' sample_db
          (signed_request ''pi_2'')))) =
     Some ((orders sample_db ! 1)\<lparr>orderStatus := paymentSucceeded\<rparr>)"
proof -
  note t = status_through_operations
    [where db = sample_db and constructEvent = accept_succeeded and secret = "''whsec''"
       and ops = "[StripeWebhook (signed_request ''pi_1'')]"
       and req = "signed_request ''pi_2''"]
  let ?ev = "\<lparr>ev_type = ''payment_intent.succeeded'', payment_intent_id = ''pi_2''\<rparr>"
  have i: "0 < length (orders sample_db)"
    and r: "rank (orderStatus (orders sample_db ! 0)) \<le> 1"
    by (simp_all add: sample_db_def)
  have ev: "accept_succeeded (body (signed_request ''pi_2''))
              (stripe_signature (signed_request ''pi_2'')) ''whsec'' = Inr ?ev
            \<and> ev_type ?ev = ''payment_intent.succeeded''
            \<and> find (\<lambda>ord. stripePaymentIntentId ord = payment_intent_id ?ev) (orders sample_db) =
                Some (orders sample_db ! 1)"
    by (simp add: accept_succeeded_def signed_request_def stripe_signature_def sample_db_def)
  from t i r have first: "rank (orderStatus (orders sample_db ! 0))
     \<le> rank (orderStatus (orders (foldl (perform accept_succeeded ''whsec'') sample_db
                [StripeWebhook (signed_request ''pi_1'')]) ! 0))"
    by blast
  from t ev have "find (\<lambda>ord. stripePaymentIntentId ord = payment_intent_id ?ev)
       (orders (final (handleStripeWebhook accept_succeeded ''whsec'' sample_db
          (signed_request ''pi_2'')))) =
     Some ((orders sample_db ! 1)\<lparr>orderStatus := paymentSucceeded\<rparr>)"
    by blast
  with first show ?thesis by simp
qed

section \<open>Updating the local cart\<close>

lemma findIndex_from_none:
  "findIndex_from P xs k = - 1 \<Longrightarrow> 0 \<le> k \<Longrightarrow> \<forall>x \<in> set xs. \<not> P x"
proof (induction xs arbitrary: k)
  case Nil
  then show ?case by simp
next
  case (Cons x xs)
  show ?case
  proof (cases "P x")
    case True
    with Cons.prems show ?thesis by simp
  next
    case False
    with Cons.prems have "findIndex_from P xs (k + 1) = - 1" "0 \<le> k + 1" by simp_all
    from Cons.IH [OF this] False show ?thesis by simp
  qed
qed

lemma findIndex_from_first:
  "findIndex_from P xs k \<noteq> - 1 \<longrightarrow>
     k \<le> findIndex_from P xs k \<and> findIndex_from P xs k < k + int (length xs)
     \<and> P (xs ! nat (findIndex_from P xs k - k))
     \<and> (\<forall>j < nat (findIndex_from P xs k - k). \<not> P (xs ! j))"
proof (induction xs arbitrary: k)
  case Nil
  show ?case by simp
next
  case (Cons x xs)
  show ?case
  proof (cases "P x")
    case True
    then show ?thesis by simp
  next
    case False
    show ?thesis
    proof
      assume "findIndex_from P (x # xs) k \<noteq> - 1"
      with False have ne: "findIndex_from P xs (k + 1) \<noteq> - 1" by simp
      define r where "r = findIndex_from P xs (k + 1)"
      from Cons.IH [of "k + 1"] ne
      have ih: "k + 1 \<le> r" "r < k + 1 + int (length xs)"
        "P (xs ! nat (r - (k + 1)))" "\<forall>j < nat (r - (k + 1)). \<not> P (xs ! j)"
        by (simp_all add: r_def)
      have eq: "findIndex_from P (x # xs) k = r" using False by (simp add: r_def)
      from ih(1) have n: "nat (r - k) = Suc (nat (r - (k + 1)))" by simp
      have "\<forall>j < nat (r - k). \<not> P ((x # xs) ! j)"
      proof (intro allI impI)
        fix j assume "j < nat (r - k)"
        with n ih(4) False show "\<not> P ((x # xs) ! j)"
          by (cases j) simp_all
      qed
      with ih n show "k \<le> findIndex_from P (x # xs) k
        \<and> findIndex_from P (x # xs) k < k + int (length (x # xs))
        \<and> P ((x # xs) ! nat (findIndex_from P (x # xs) k - k))
        \<and> (\<forall>j < nat (findIndex_from P (x # xs) k - k). \<not> P ((x # xs) ! j))"
        unfolding eq by simp
    qed
  qed
qed

lemma findIndex_none: "findIndex P xs = - 1 \<Longrightarrow> \<forall>x \<in> set xs. \<not> P x"
  using findIndex_from_none [of P xs 0] by (simp add: findIndex_def)

lemma findIndex_first:
  assumes "findIndex P xs \<noteq> - 1"
  shows "0 \<le> findIndex P xs" "findIndex P xs < int (length xs)"
    "P (xs ! nat (findIndex P xs))" "\<forall>j < nat (findIndex P xs). \<not> P (xs ! j)"
  using findIndex_from_first [of P xs 0] assms by (simp_all add: findIndex_def)

lemma filter_list_update_same:
  "i < length xs \<Longrightarrow> \<not> Q (xs ! i) \<Longrightarrow> \<not> Q v \<Longrightarrow> filter Q (xs[i := v]) = filter Q xs"
proof (induction xs arbitrary: i)
  case Nil
  then show ?case by simp
next
  case (Cons x xs)
  then show ?case by (cases i) simp_all
qed

lemma first_index_unique:
  assumes "i < length xs" "P (xs ! i)" "\<forall>j < i. \<not> P (xs ! j)"
    and "k < length xs" "P (xs ! k)" "\<forall>j < k. \<not> P (xs ! j)"
  shows "i = (k::nat)"
proof (rule ccontr)
  assume "i \<noteq> k"
  then consider "i < k" | "k < i" by linarith
  then show False using assms by cases auto
qed


lemma updateLocalCart_absent:
  assumes "newQuantity \<noteq> 0" and "\<forall>c \<in> set cart. productId c \<noteq> pid"
  shows "updateLocalCart cart pid newQuantity =
           Inr (cart @ [\<lparr>productId = pid, productQuantity = newQuantity\<rparr>])"
proof -
  have "findIndex (\<lambda>cartItem. productId cartItem = pid) cart = - 1"
  proof (rule ccontr)
    assume "findIndex (\<lambda>cartItem. productId cartItem = pid) cart \<noteq> - 1"
    from findIndex_first(2,3) [OF this] assms(2) findIndex_first(1) [OF this]
    show False by (metis nat_less_iff nth_mem)
  qed
  with assms(1) show ?thesis by (simp add: updateLocalCart_def)
qed

lemma updateLocalCart_present:
  assumes "newQuantity \<noteq> 0" and "i < length cart" and "productId (cart ! i) = pid"
    and "\<forall>j < i. productId (cart ! j) \<noteq> pid"
  shows "updateLocalCart cart pid newQuantity =
           Inr (cart[i := \<lparr>productId = pid, productQuantity = newQuantity\<rparr>])"
proof -
  let ?P = "\<lambda>cartItem. productId cartItem = pid"
  have found: "findIndex ?P cart \<noteq> - 1"
  proof
    assume "findIndex ?P cart = - 1"
    from findIndex_none [OF this] assms(2,3) show False by (metis nth_mem)
  qed
  note f = findIndex_first [OF found]
  from f(1,2) have k: "nat (findIndex ?P cart) < length cart" by simp
  have "nat (findIndex ?P cart) = i"
    by (rule first_index_unique [where P = ?P and xs = cart]) (use k f assms in simp_all)
  with f(1) have idx: "findIndex ?P cart = int i" by simp
  from assms(2) have "array_with cart (int i) \<lparr>productId = pid, productQuantity = newQuantity\<rparr> =
      Inr (cart[i := \<lparr>productId = pid, productQuantity = newQuantity\<rparr>])"
    by (simp add: array_with_def Let_def)
  with assms(1,2) idx show ?thesis
    by (simp add: updateLocalCart_def Let_def)
qed

lemma first_index_exists:
  "\<exists>x \<in> set xs. P x \<Longrightarrow> \<exists>i < length xs. P (xs ! i) \<and> (\<forall>j < i. \<not> P (xs ! j))"
proof (induction xs)
  case Nil
  then show ?case by simp
next
  case (Cons x xs)
  show ?case
  proof (cases "P x")
    case True
    then have "0 < length (x # xs) \<and> P ((x # xs) ! 0) \<and> (\<forall>j < 0. \<not> P ((x # xs) ! j))"
      by simp
    then show ?thesis by blast
  next
    case False
    with Cons.prems have "\<exists>x \<in> set xs. P x" by simp
    from Cons.IH [OF this] obtain i where
      i: "i < length xs" "P (xs ! i)" "\<forall>j < i. \<not> P (xs ! j)" by blast
    have "\<forall>j < Suc i. \<not> P ((x # xs) ! j)"
    proof (intro allI impI)
      fix j assume "j < Suc i"
      with i(3) False show "\<not> P ((x # xs) ! j)" by (cases j) simp_all
    qed
    with i have "Suc i < length (x # xs) \<and> P ((x # xs) ! Suc i)
        \<and> (\<forall>j < Suc i. \<not> P ((x # xs) ! j))"
      by simp
    then show ?thesis by blast
  qed
qed

text \<open>
  C10. With quantity 0 the result is the cart without the entries of the product,
  the other entries as they were and in their order. With a quantity above 0 the
  call returns a cart that holds the entry of the product with the new quantity:
  written over the first entry of the product when the cart has one, appended
  otherwise; the entries of the other products are as they were.
\<close>

theorem updateLocalCart_result:
  "updateLocalCart cart pid 0 = Inr (filter (\<lambda>c. productId c \<noteq> pid) cart)
   \<and> (0 < newQuantity \<longrightarrow>
        (\<exists>r. updateLocalCart cart pid newQuantity = Inr r
           \<and> \<lparr>productId = pid, productQuantity = newQuantity\<rparr> \<in> set r
           \<and> filter (\<lambda>c. productId c \<noteq> pid) r = filter (\<lambda>c. productId c \<noteq> pid) cart
           \<and> ((\<forall>c \<in> set cart. productId c \<noteq> pid)
                \<longrightarrow> r = cart @ [\<lparr>productId = pid, productQuantity = newQuantity\<rparr>])
           \<and> (\<forall>i < length cart.
                 productId (cart ! i) = pid \<and> (\<forall>j < i. productId (cart ! j) \<noteq> pid)
                 \<longrightarrow> r = cart[i := \<lparr>productId = pid, productQuantity = newQuantity\<rparr>])))"
proof (intro conjI impI)
  show "updateLocalCart cart pid 0 = Inr (filter (\<lambda>c. productId c \<noteq> pid) cart)"
    by (simp add: updateLocalCart_def)
next
  let ?new = "\<lparr>productId = pid, productQuantity = newQuantity\<rparr>"
  let ?Q = "\<lambda>c. productId c \<noteq> pid"
  assume "0 < newQuantity"
  then have q: "newQuantity \<noteq> 0" by simp
  show "\<exists>r. updateLocalCart cart pid newQuantity = Inr r
           \<and> ?new \<in> set r
           \<and> filter ?Q r = filter ?Q cart
           \<and> ((\<forall>c \<in> set cart. productId c \<noteq> pid) \<longrightarrow> r = cart @ [?new])
           \<and> (\<forall>i < length cart.
                 productId (cart ! i) = pid \<and> (\<forall>j < i. productId (cart ! j) \<noteq> pid)
                 \<longrightarrow> r = cart[i := ?new])"
  proof (cases "\<forall>c \<in> set cart. productId c \<noteq> pid")
    case True
    have run: "updateLocalCart cart pid newQuantity = Inr (cart @ [?new])"
      by (rule updateLocalCart_absent [OF q True])
    have none: "\<forall>i < length cart. productId (cart ! i) \<noteq> pid"
      using True by simp
    from run none show ?thesis by simp
  next
    case False
    then have "\<exists>c \<in> set cart. productId c = pid" by simp
    from first_index_exists [OF this] obtain i where
      i: "i < length cart" "productId (cart ! i) = pid" "\<forall>j < i. productId (cart ! j) \<noteq> pid"
      by blast
    have run: "updateLocalCart cart pid newQuantity = Inr (cart[i := ?new])"
      by (rule updateLocalCart_present [OF q i])
    have mem: "?new \<in> set (cart[i := ?new])"
      using i(1) by (simp add: set_update_memI)
    have others: "filter ?Q (cart[i := ?new]) = filter ?Q cart"
      using i(1,2) by (simp add: filter_list_update_same)
    have first: "\<forall>k < length cart.
        productId (cart ! k) = pid \<and> (\<forall>j < k. productId (cart ! j) \<noteq> pid)
        \<longrightarrow> cart[i := ?new] = cart[k := ?new]"
    proof (intro allI impI)
      fix k assume "k < length cart"
        and "productId (cart ! k) = pid \<and> (\<forall>j < k. productId (cart ! j) \<noteq> pid)"
      with i have "i = k"
        by (intro first_index_unique [where P = "\<lambda>c. productId c = pid" and xs = cart]) simp_all
      then show "cart[i := ?new] = cart[k := ?new]" by simp
    qed
    have absent: "(\<forall>c \<in> set cart. productId c \<noteq> pid) \<longrightarrow>
        cart[i := ?new] = cart @ [?new]"
      using False by blast
    from run mem others first absent show ?thesis by blast
  qed
qed

theorem updateLocalCart_result_witness:
  "updateLocalCart [\<lparr>productId = ''A'', productQuantity = 2\<rparr>,
                    \<lparr>productId = ''B'', productQuantity = 1\<rparr>] ''B'' 5 =
     Inr [\<lparr>productId = ''A'', productQuantity = 2\<rparr>, \<lparr>productId = ''B'', productQuantity = 5\<rparr>]"
proof -
  let ?cart = "[\<lparr>productId = ''A'', productQuantity = 2\<rparr>, \<lparr>productId = ''B'', productQuantity = 1\<rparr>]"
  have pos: "(0::int) < 5" by simp
  have at: "1 < length ?cart \<and> productId (?cart ! 1) = ''B''
      \<and> (\<forall>j < 1. productId (?cart ! j) \<noteq> ''B'')"
    by simp
  from updateLocalCart_result [of ?cart "''B''" 5] pos
  obtain r where r: "updateLocalCart ?cart ''B'' 5 = Inr r"
    and upd: "\<forall>i < length ?cart.
       productId (?cart ! i) = ''B'' \<and> (\<forall>j < i. productId (?cart ! j) \<noteq> ''B'')
       \<longrightarrow> r = ?cart[i := \<lparr>productId = ''B'', productQuantity = 5\<rparr>]"
    by blast
  from upd at have "r = ?cart[1 := \<lparr>productId = ''B'', productQuantity = 5\<rparr>]" by blast
  with r show ?thesis by simp
qed

section \<open>The reconciler\<close>

lemma creates_filter:
  "creates (getActionArrays D C) = filter (\<lambda>e. classify C e = Create) D"
  by (induction D) (simp_all add: Let_def split: action.splits)

lemma updates_filter:
  "updates (getActionArrays D C) = filter (\<lambda>e. classify C e = Update) D"
  by (induction D) (simp_all add: Let_def split: action.splits)

lemma deletes_filter:
  "deletes (getActionArrays D C) = map productId (filter (\<lambda>e. classify C e = Delete) D)"
  by (induction D) (simp_all add: Let_def split: action.splits)

lemma classify_Create:
  "classify C e = Create \<longleftrightarrow> productQuantity e \<noteq> 0 \<and> C (productId e) = None"
  by (simp add: classify_def split: option.splits)

lemma classify_Update:
  "classify C e = Update \<longleftrightarrow>
     productQuantity e \<noteq> 0 \<and>
     (case C (productId e) of None \<Rightarrow> False
      | Some current \<Rightarrow> productQuantity current \<noteq> productQuantity e)"
  by (simp add: classify_def split: option.splits)

lemma classify_Delete: "classify C e = Delete \<longleftrightarrow> productQuantity e = 0"
  by (simp add: classify_def split: option.splits)

lemma settle_other_product:
  "written_product w \<noteq> p \<Longrightarrow>
     filter (\<lambda>row. productId row = p) (settle rows w) = filter (\<lambda>row. productId row = p) rows"
proof (cases w)
  case (Create_item e)
  assume "written_product w \<noteq> p"
  with Create_item show ?thesis by (simp add: settle_def)
next
  case (Update_item e)
  assume "written_product w \<noteq> p"
  with Update_item have "productId e \<noteq> p" by simp
  then have "filter (\<lambda>row. productId row = p)
       (map (\<lambda>row. if productId row = productId e
                    then row\<lparr>productQuantity := productQuantity e\<rparr> else row) rows) =
     filter (\<lambda>row. productId row = p) rows"
    by (induction rows) auto
  with Update_item show ?thesis by (simp add: settle_def)
next
  case (Delete_item q)
  assume "written_product w \<noteq> p"
  with Delete_item have "q \<noteq> p" by simp
  then have "filter (\<lambda>row. productId row = p) (filter (\<lambda>row. productId row \<noteq> q) rows) =
     filter (\<lambda>row. productId row = p) rows"
    by (induction rows) auto
  with Delete_item show ?thesis by (simp add: settle_def)
qed

lemma settle_all_other_products:
  "\<forall>w \<in> set ws. written_product w \<noteq> p \<Longrightarrow>
     filter (\<lambda>row. productId row = p) (foldl settle rows ws) =
     filter (\<lambda>row. productId row = p) rows"
proof (induction ws arbitrary: rows)
  case Nil
  show ?case by simp
next
  case (Cons w ws)
  then have "written_product w \<noteq> p" and rest: "\<forall>w \<in> set ws. written_product w \<noteq> p"
    by simp_all
  from Cons.IH [OF rest, of "settle rows w"] settle_other_product [OF \<open>written_product w \<noteq> p\<close>]
  show ?case by simp
qed

lemma batch_products:
  "written_product ` set (batch_writes (getActionArrays D C)) \<subseteq> productId ` set D"
  by (auto simp: batch_writes_def creates_filter updates_filter deletes_filter)

lemma delete_absent_settles_unchanged:
  "p \<notin> set (map productId rows) \<Longrightarrow> settle rows (Delete_item p) = rows"
  by (induction rows) (auto simp: settle_def)


text \<open>
  C3. Each batch of the reconciler holds, in the order of the desired items, the
  entries of its class and no others. An entry with target quantity 0 is a delete,
  so its product is in the deletes and the entry is in neither the updates nor the
  creates; of the other entries, one whose product is absent from the current cart
  is a create, one whose product is there with a different quantity is an update,
  and one whose product is there with the same quantity is in no batch. The cart
  \<open>{A:2, B:1}\<close> with the desired items \<open>[{A,0},{C,3}]\<close> gives deletes \<open>[A]\<close>, creates
  \<open>[C:3]\<close> and no update.
\<close>

theorem reconcile_classification:
  "creates (getActionArrays D C) = filter (\<lambda>e. classify C e = Create) D
   \<and> updates (getActionArrays D C) = filter (\<lambda>e. classify C e = Update) D
   \<and> deletes (getActionArrays D C) = map productId (filter (\<lambda>e. classify C e = Delete) D)
   \<and> (\<forall>e. (productQuantity e = 0 \<longrightarrow> classify C e = Delete)
          \<and> (0 < productQuantity e \<and> C (productId e) = None \<longrightarrow> classify C e = Create)
          \<and> (\<forall>current. productQuantity e \<noteq> 0 \<and> C (productId e) = Some current
                \<and> productQuantity current \<noteq> productQuantity e \<longrightarrow> classify C e = Update)
          \<and> (\<forall>current. productQuantity e \<noteq> 0 \<and> C (productId e) = Some current
                \<and> productQuantity current = productQuantity e \<longrightarrow> classify C e = No_op))
   \<and> (\<forall>e \<in> set D. productQuantity e = 0 \<longrightarrow>
          productId e \<in> set (deletes (getActionArrays D C))
          \<and> e \<notin> set (updates (getActionArrays D C))
          \<and> e \<notin> set (creates (getActionArrays D C)))
   \<and> getActionArrays
         [\<lparr>productId = ''A'', productQuantity = 0\<rparr>, \<lparr>productId = ''C'', productQuantity = 3\<rparr>]
         (userCartMap
            [\<lparr>productId = ''A'', productQuantity = 2\<rparr>, \<lparr>productId = ''B'', productQuantity = 1\<rparr>]) =
       \<lparr>creates = [\<lparr>productId = ''C'', productQuantity = 3\<rparr>], updates = [],
        deletes = [''A'']\<rparr>"
proof (intro conjI)
  show "creates (getActionArrays D C) = filter (\<lambda>e. classify C e = Create) D"
    by (rule creates_filter)
  show "updates (getActionArrays D C) = filter (\<lambda>e. classify C e = Update) D"
    by (rule updates_filter)
  show "deletes (getActionArrays D C) = map productId (filter (\<lambda>e. classify C e = Delete) D)"
    by (rule deletes_filter)
  show "\<forall>e. (productQuantity e = 0 \<longrightarrow> classify C e = Delete)
          \<and> (0 < productQuantity e \<and> C (productId e) = None \<longrightarrow> classify C e = Create)
          \<and> (\<forall>current. productQuantity e \<noteq> 0 \<and> C (productId e) = Some current
                \<and> productQuantity current \<noteq> productQuantity e \<longrightarrow> classify C e = Update)
          \<and> (\<forall>current. productQuantity e \<noteq> 0 \<and> C (productId e) = Some current
                \<and> productQuantity current = productQuantity e \<longrightarrow> classify C e = No_op)"
    by (simp add: classify_def)
  show "\<forall>e \<in> set D. productQuantity e = 0 \<longrightarrow>
          productId e \<in> set (deletes (getActionArrays D C))
          \<and> e \<notin> set (updates (getActionArrays D C))
          \<and> e \<notin> set (creates (getActionArrays D C))"
    by (simp add: creates_filter updates_filter deletes_filter classify_Create classify_Update
        classify_Delete)
  show "getActionArrays
         [\<lparr>productId = ''A'', productQuantity = 0\<rparr>, \<lparr>productId = ''C'', productQuantity = 3\<rparr>]
         (userCartMap
            [\<lparr>productId = ''A'', productQuantity = 2\<rparr>, \<lparr>productId = ''B'', productQuantity = 1\<rparr>]) =
       \<lparr>creates = [\<lparr>productId = ''C'', productQuantity = 3\<rparr>], updates = [],
        deletes = [''A'']\<rparr>"
    by (simp add: classify_def userCartMap_def Let_def)
qed

theorem reconcile_classification_witness:
  "classify
     (userCartMap
        [\<lparr>productId = ''A'', productQuantity = 2\<rparr>, \<lparr>productId = ''B'', productQuantity = 1\<rparr>])
     \<lparr>productId = ''A'', productQuantity = 5\<rparr> = Update
   \<and> ''A'' \<in> set (deletes (getActionArrays
         [\<lparr>productId = ''A'', productQuantity = 0\<rparr>, \<lparr>productId = ''C'', productQuantity = 3\<rparr>]
         (userCartMap
            [\<lparr>productId = ''A'', productQuantity = 2\<rparr>, \<lparr>productId = ''B'', productQuantity = 1\<rparr>])))"
proof -
  let ?C = "userCartMap
        [\<lparr>productId = ''A'', productQuantity = 2\<rparr>, \<lparr>productId = ''B'', productQuantity = 1\<rparr>]"
  let ?D = "[\<lparr>productId = ''A'', productQuantity = 0\<rparr>, \<lparr>productId = ''C'', productQuantity = 3\<rparr>]"
  let ?e = "\<lparr>productId = ''A'', productQuantity = 5\<rparr>"
  note t = reconcile_classification [of ?D ?C]
  have present: "productQuantity ?e \<noteq> 0
      \<and> ?C (productId ?e) = Some \<lparr>productId = ''A'', productQuantity = 2\<rparr>
      \<and> productQuantity \<lparr>productId = ''A'', productQuantity = 2\<rparr> \<noteq> productQuantity ?e"
    by (simp add: userCartMap_def)
  from t have "\<forall>current. productQuantity ?e \<noteq> 0 \<and> ?C (productId ?e) = Some current
                \<and> productQuantity current \<noteq> productQuantity ?e \<longrightarrow> classify ?C ?e = Update"
    by blast
  with present have upd: "classify ?C ?e = Update" by blast
  have zero: "\<lparr>productId = ''A'', productQuantity = 0\<rparr> \<in> set ?D
      \<and> productQuantity \<lparr>productId = ''A'', productQuantity = 0\<rparr> = 0"
    by simp
  from t have "\<forall>e \<in> set ?D. productQuantity e = 0 \<longrightarrow>
      productId e \<in> set (deletes (getActionArrays ?D ?C))"
    by blast
  with zero have "productId \<lparr>productId = ''A'', productQuantity = 0\<rparr>
      \<in> set (deletes (getActionArrays ?D ?C))"
    by blast
  with upd show ?thesis by simp
qed

text \<open>
  C8. A product of the current cart that the desired items do not mention is in
  none of the three batches, and its rows are the same after the writes of the
  batches have settled: in whatever order the writes are taken, whichever of them
  are rejected, and wherever the sequence stops.
\<close>

theorem reconcile_leaves_unmentioned:
  assumes "C p \<noteq> None" and "p \<notin> productId ` set D"
  shows "p \<notin> productId ` set (creates (getActionArrays D C))
       \<and> p \<notin> productId ` set (updates (getActionArrays D C))
       \<and> p \<notin> set (deletes (getActionArrays D C))
       \<and> (\<forall>ws rows. set ws \<subseteq> set (batch_writes (getActionArrays D C)) \<longrightarrow>
             filter (\<lambda>row. productId row = p) (foldl settle rows ws) =
             filter (\<lambda>row. productId row = p) rows)"
proof (intro conjI allI impI)
  from assms(2) show "p \<notin> productId ` set (creates (getActionArrays D C))"
    by (auto simp: creates_filter)
  from assms(2) show "p \<notin> productId ` set (updates (getActionArrays D C))"
    by (auto simp: updates_filter)
  from assms(2) show "p \<notin> set (deletes (getActionArrays D C))"
    by (auto simp: deletes_filter)
next
  fix ws rows
  assume sub: "set ws \<subseteq> set (batch_writes (getActionArrays D C))"
  have "\<forall>w \<in> set ws. written_product w \<noteq> p"
  proof
    fix w assume "w \<in> set ws"
    with sub have "written_product w \<in> written_product ` set (batch_writes (getActionArrays D C))"
      by blast
    with batch_products [of D C] have "written_product w \<in> productId ` set D" by blast
    with assms(2) show "written_product w \<noteq> p" by blast
  qed
  then show "filter (\<lambda>row. productId row = p) (foldl settle rows ws) =
      filter (\<lambda>row. productId row = p) rows"
    by (rule settle_all_other_products)
qed

theorem reconcile_leaves_unmentioned_witness:
  "filter (\<lambda>row. productId row = ''B'')
     (foldl settle
        [\<lparr>productId = ''A'', productQuantity = 2\<rparr>, \<lparr>productId = ''B'', productQuantity = 1\<rparr>]
        (batch_writes (getActionArrays
           [\<lparr>productId = ''A'', productQuantity = 0\<rparr>, \<lparr>productId = ''C'', productQuantity = 3\<rparr>]
           (userCartMap
              [\<lparr>productId = ''A'', productQuantity = 2\<rparr>,
               \<lparr>productId = ''B'', productQuantity = 1\<rparr>])))) =
   [\<lparr>productId = ''B'', productQuantity = 1\<rparr>]"
proof -
  let ?rows = "[\<lparr>productId = ''A'', productQuantity = 2\<rparr>, \<lparr>productId = ''B'', productQuantity = 1\<rparr>]"
  let ?D = "[\<lparr>productId = ''A'', productQuantity = 0\<rparr>, \<lparr>productId = ''C'', productQuantity = 3\<rparr>]"
  have present: "userCartMap ?rows ''B'' \<noteq> None"
    by (simp add: userCartMap_def)
  have unmentioned: "''B'' \<notin> productId ` set ?D"
    by simp
  from reconcile_leaves_unmentioned
         [where C = "userCartMap ?rows" and p = "''B''" and D = ?D, OF present unmentioned]
  have "set (batch_writes (getActionArrays ?D (userCartMap ?rows)))
          \<subseteq> set (batch_writes (getActionArrays ?D (userCartMap ?rows))) \<longrightarrow>
        filter (\<lambda>row. productId row = ''B'')
          (foldl settle ?rows (batch_writes (getActionArrays ?D (userCartMap ?rows)))) =
        filter (\<lambda>row. productId row = ''B'') ?rows"
    by blast
  then show ?thesis by simp
qed

lemma sample_reconciliation:
  "foldl settle
     [\<lparr>productId = ''A'', productQuantity = 2\<rparr>, \<lparr>productId = ''B'', productQuantity = 1\<rparr>]
     (batch_writes (getActionArrays
        [\<lparr>productId = ''A'', productQuantity = 0\<rparr>, \<lparr>productId = ''C'', productQuantity = 3\<rparr>]
        (userCartMap
           [\<lparr>productId = ''A'', productQuantity = 2\<rparr>,
            \<lparr>productId = ''B'', productQuantity = 1\<rparr>]))) =
   [\<lparr>productId = ''B'', productQuantity = 1\<rparr>, \<lparr>productId = ''C'', productQuantity = 3\<rparr>]"
  by (simp add: batch_writes_def classify_def userCartMap_def settle_def Let_def)

end
